theory Spec2Isabelle
  imports Complex_Main "HOL-Library.AList" "HOL-Library.Multiset"
begin

section \<open>Data model of \<open>src/tile/tile_manager.js\<close>\<close>

text \<open>
  The tile manager is a JavaScript class whose methods mutate \<open>this\<close> and the tile
  objects it holds. Tile objects are shared by reference between the cache
  (\<open>this.tiles\<close>), the spatial index (\<open>this.pyramid\<close>) and the renderable list, so the
  model keeps them in an explicit store: a \<open>ref\<close> is the identity of a tile object and
  \<open>heap\<close> gives its current fields. JavaScript objects used as dictionaries iterate in
  insertion order for non-numeric string keys, so dictionaries are association lists.
  A number that is a double in the source (zoom, metres) is the rational it denotes;
  the arithmetic on doubles rounds, so it is a parameter of the model (see
  \<open>Externals\<close>), while comparison, \<open>Math.abs\<close> and \<open>Math.floor\<close> are exact. \<open>NaN\<close> and the
  infinities are left out.
\<close>

type_synonym key = string
type_synonym ref = nat

record TileCoordinate =
  x :: int
  y :: int
  z :: int
  coord_key :: key

record Source =
  source_name :: string
  source_id :: int
  tiled :: bool
  builds_geometry_tiles :: bool

record Mesh =
  created_at :: int

text \<open>
  The fields of a tile object that \<open>tile_manager.js\<close> reads or writes. \<open>tile_id\<close> is the
  source's \<open>tile.id\<close>; \<open>meshes\<close> is the object \<open>style name \<rightarrow> mesh array\<close>; \<open>proxy_for\<close>
  holds the tiles this one stands in for.
\<close>

record Tile =
  key :: key
  tile_id :: int
  generation :: int
  coords :: TileCoordinate
  source :: Source
  style_z :: int
  worker :: "nat option"
  visible :: bool
  built :: bool
  loaded :: bool
  labeled :: bool
  valid :: bool
  build_id :: int
  meshes :: "(string \<times> Mesh list) list"
  proxy_for :: "ref list"

record Progress =
  progress_done :: bool

text \<open>
  \<open>building\<close> is \<open>scene.building\<close>: \<open>None\<close> when it is falsy, \<open>Some i\<close> when it is an
  object whose \<open>initial\<close> flag is \<open>i\<close>. \<open>workers\<close> is the size of the worker pool.
\<close>

record Scene =
  scene_generation :: int
  building :: "bool option"
  sources :: "(string \<times> Source) list"
  workers :: nat

record View =
  zoom :: rat
  tile_zoom :: int
  center_meters :: "rat \<times> rat"
  center_tile_z :: int
  zoom_direction :: int

text \<open>
  \<open>roundPrecision\<close> returns the string of \<open>toFixed(2)\<close>; the model keeps what that string
  spells: \<open>NaN\<close>, or whether it starts with a minus sign and the number of hundredths
  that follows.
\<close>

datatype fixed = NaN | Fixed bool int

text \<open>
  \<open>this.collision\<close>. The three fingerprint fields start as \<open>null\<close>. \<open>JSON.stringify\<close> is
  injective on arrays of strings and on nested arrays of numbers, so the stored strings
  are modelled by the arrays they encode. \<open>task\<close> is the in-flight collision task, with
  the tile list its closure captured.
\<close>

record Collision =
  mesh_set :: "int list list list option"
  tile_keys :: "key list option"
  collision_zoom :: "fixed option"
  zoom_steps :: int
  task :: "ref list option"

text \<open>Calls into collaborators that the manager only triggers, in the order they happen.\<close>

datatype event =
    AbortBuild Tile
  | Destroy ref
  | Build ref int
  | RequestRedraw
  | ImmediateRedraw
  | TaskAdd "ref list"
  | TaskFinish
  | TileManagerBuildDone

record TileManager =
  heap :: "ref \<Rightarrow> Tile"
  next_ref :: ref
  tiles :: "(key \<times> ref) list"
  pyramid :: "ref list"
  visible_coords :: "(key \<times> TileCoordinate) list"
  queued_coords :: "TileCoordinate list"
  building_tiles :: "key list option"
  renderable_tiles :: "ref list"
  active_styles :: "string list"
  collision :: Collision
  scene :: Scene
  view :: View
  events :: "event list"

datatype error = TypeError

text \<open>
  The collaborators whose code is not part of \<open>tile_manager.js\<close> and whose results the
  manager consumes: \<open>TileID\<close>, \<open>Geo\<close>, the data sources' coverage test, the view's zoom
  mapping and retention policy, the \<open>Tile\<close> constructor, \<open>Tile.merge\<close>,
  \<open>Tile.buildMeshes\<close> (its \<open>styles\<close> argument, which the manager only passes on, is part
  of the parameter) and the pyramid's coverage queries. They are parameters of the
  model, and so are the four operations of double arithmetic, \<open>fl_add\<close>, \<open>fl_sub\<close>,
  \<open>fl_mul\<close> and \<open>fl_div\<close>, each the exact result rounded to a double.
\<close>

record Externals =
  isDescendant :: "TileCoordinate \<Rightarrow> TileCoordinate \<Rightarrow> bool"
  normalizedKey :: "TileCoordinate \<Rightarrow> Source \<Rightarrow> int \<Rightarrow> key option"
  includesTile :: "Source \<Rightarrow> TileCoordinate \<Rightarrow> int \<Rightarrow> bool"
  baseZoom :: "int \<Rightarrow> int"
  metersPerTile :: "int \<Rightarrow> rat"
  metersForTile :: "TileCoordinate \<Rightarrow> rat \<times> rat"
  newTile :: "nat \<Rightarrow> Source \<Rightarrow> TileCoordinate \<Rightarrow> nat option \<Rightarrow> int \<Rightarrow> Tile"
  merge :: "Tile \<Rightarrow> Tile \<Rightarrow> Tile"
  buildMeshes :: "Progress \<Rightarrow> Tile \<Rightarrow> Tile"
  getAncestor :: "(ref \<Rightarrow> Tile) \<Rightarrow> ref list \<Rightarrow> ref \<Rightarrow> ref option"
  getDescendants :: "(ref \<Rightarrow> Tile) \<Rightarrow> ref list \<Rightarrow> ref \<Rightarrow> ref list"
  outsideRetention :: "View \<Rightarrow> Tile \<Rightarrow> bool"
  fl_add :: "rat \<Rightarrow> rat \<Rightarrow> rat"
  fl_sub :: "rat \<Rightarrow> rat \<Rightarrow> rat"
  fl_mul :: "rat \<Rightarrow> rat \<Rightarrow> rat"
  fl_div :: "rat \<Rightarrow> rat \<Rightarrow> rat"

section \<open>Collaborator operations the manager relies on\<close>

definition emit :: "event \<Rightarrow> TileManager \<Rightarrow> TileManager" where
  "emit e s = s\<lparr>events := events s @ [e]\<rparr>"

text \<open>
  Modelled from the spec: \<open>TilePyramid.addTile\<close> is not in the sources. The spec gives
  the index the operations "insert/remove by tile" and says that it "holds only a
  lookup reference" to each tile.
\<close>

definition pyramid_addTile :: "ref \<Rightarrow> TileManager \<Rightarrow> TileManager" where
  "pyramid_addTile r s = s\<lparr>pyramid := List.insert r (pyramid s)\<rparr>"

text \<open>
  Modelled from the spec: \<open>TilePyramid.removeTile\<close> is not in the sources; it is the
  "remove by tile" of the index.
\<close>

definition pyramid_removeTile :: "ref \<Rightarrow> TileManager \<Rightarrow> TileManager" where
  "pyramid_removeTile r s = s\<lparr>pyramid := removeAll r (pyramid s)\<rparr>"

text \<open>
  Modelled from the spec: \<open>Tile.destroy\<close> is not in the sources; the spec describes it as
  the release of "any external (e.g. GPU-side) resources held by the tile".
\<close>

definition tile_destroy :: "ref \<Rightarrow> TileManager \<Rightarrow> TileManager" where
  "tile_destroy r s = emit (Destroy r) s"

text \<open>
  Modelled from the spec: \<open>Tile.abortBuild\<close> is not in the sources; the spec describes it
  as "an abort operation releasing build-side resources" of a build result.
\<close>

definition Tile_abortBuild :: "Tile \<Rightarrow> TileManager \<Rightarrow> TileManager" where
  "Tile_abortBuild t s = emit (AbortBuild t) s"

section \<open>Build tracking\<close>

definition checkBuildQueue :: "TileManager \<Rightarrow> TileManager" where
  "checkBuildQueue s =
     (if building_tiles s = None \<or> building_tiles s = Some []
      then emit TileManagerBuildDone (s\<lparr>building_tiles := None\<rparr>)
      else s)"

definition tileBuildStart :: "key \<Rightarrow> TileManager \<Rightarrow> TileManager" where
  "tileBuildStart k s =
     (let bt = (case building_tiles s of None \<Rightarrow> [] | Some ks \<Rightarrow> ks)
      in s\<lparr>building_tiles := Some (if k \<in> set bt then bt else bt @ [k])\<rparr>)"

definition tileBuildStop :: "key \<Rightarrow> TileManager \<Rightarrow> TileManager" where
  "tileBuildStop k s =
     (case building_tiles s of
        None \<Rightarrow> s
      | Some ks \<Rightarrow> checkBuildQueue (s\<lparr>building_tiles := Some (removeAll k ks)\<rparr>))"

section \<open>Admission and eviction\<close>

definition keepTile :: "ref \<Rightarrow> TileManager \<Rightarrow> TileManager" where
  "keepTile r s =
     pyramid_addTile r (s\<lparr>tiles := AList.update (key (heap s r)) r (tiles s)\<rparr>)"

definition hasTile :: "key \<Rightarrow> TileManager \<Rightarrow> bool" where
  "hasTile k s = (map_of (tiles s) k \<noteq> None)"

definition forgetTile :: "key \<Rightarrow> TileManager \<Rightarrow> TileManager" where
  "forgetTile k s =
     (let s1 = (if hasTile k s
                then (case map_of (tiles s) k of
                        Some tile \<Rightarrow> pyramid_removeTile tile s
                      | None \<Rightarrow> s)
                else s);
          s2 = s1\<lparr>tiles := AList.delete k (tiles s1)\<rparr>
      in tileBuildStop k s2)"

text \<open>
  \<open>removeTile\<close> guards \<open>tile.destroy()\<close> with \<open>tile != null\<close> and then reads \<open>tile.key\<close>
  without a guard: for a key that is not cached \<open>tile\<close> is \<open>undefined\<close> and the read
  throws a \<open>TypeError\<close> before anything was changed.
\<close>

definition removeTile :: "key \<Rightarrow> TileManager \<Rightarrow> error + TileManager" where
  "removeTile k s =
     (case map_of (tiles s) k of
        None \<Rightarrow> Inl TypeError
      | Some tile \<Rightarrow>
          (let s1 = tile_destroy tile s;
               s2 = forgetTile (key (heap s1 tile)) s1
           in Inr (emit RequestRedraw s2)))"

definition removeTiles :: "(Tile \<Rightarrow> bool) \<Rightarrow> TileManager \<Rightarrow> error + TileManager" where
  "removeTiles flt s =
     (let remove_tiles = map fst (filter (\<lambda>(t, tile). flt (heap s tile)) (tiles s))
      in fold (\<lambda>k acc. case acc of Inl e \<Rightarrow> Inl e | Inr s' \<Rightarrow> removeTile k s')
              remove_tiles (Inr s))"

definition pruneToVisibleTiles :: "TileManager \<Rightarrow> error + TileManager" where
  "pruneToVisibleTiles s = removeTiles (\<lambda>tile. \<not> visible tile) s"

text \<open>
  Modelled from the spec: \<open>view.pruneTilesForView\<close> is not in the sources. The spec
  describes it as "evict tiles outside the retention window (policy owned by the
  viewport collaborator, invoked but not defined here)", eviction being the filtered
  removal \<open>removeTiles\<close>; the policy is the parameter \<open>outsideRetention\<close>.
\<close>

definition pruneTilesForView :: "Externals \<Rightarrow> TileManager \<Rightarrow> error + TileManager" where
  "pruneTilesForView X s = removeTiles (outsideRetention X (view s)) s"

section \<open>Per-frame reconciliation\<close>

text \<open>
  \<open>forEachTile\<close> runs a function on every cached tile, in the insertion order of the
  cache. None of the functions it is used with adds or deletes cache entries.
\<close>

definition forEachTile :: "(ref \<Rightarrow> TileManager \<Rightarrow> TileManager) \<Rightarrow> TileManager \<Rightarrow> TileManager" where
  "forEachTile func s = fold func (map snd (tiles s)) s"

definition updateVisibility :: "Externals \<Rightarrow> ref \<Rightarrow> TileManager \<Rightarrow> TileManager" where
  "updateVisibility X r s =
     (let tile = heap s r;
          v = (style_z tile = tile_zoom (view s) \<and>
               (map_of (visible_coords s) (coord_key (coords tile)) \<noteq> None \<or>
                list_ex (\<lambda>(k, c). isDescendant X (coords tile) c) (visible_coords s)))
      in s\<lparr>heap := (heap s)(r := tile\<lparr>visible := v\<rparr>)\<rparr>)"

definition updateRenderableTiles :: "TileManager \<Rightarrow> TileManager" where
  "updateRenderableTiles s =
     s\<lparr>renderable_tiles :=
         filter (\<lambda>tile. visible (heap s tile) \<and> loaded (heap s tile)) (map snd (tiles s))\<rparr>"

text \<open>
  \<open>scene.workers[i]\<close> is \<open>undefined\<close> (\<open>None\<close>) when the pool is empty or the remainder
  is negative; JavaScript's \<open>%\<close> takes the sign of the dividend.
\<close>

definition getWorkerForTile :: "TileCoordinate \<Rightarrow> Source \<Rightarrow> TileManager \<Rightarrow> nat option" where
  "getWorkerForTile c src s =
     (let n = int (workers (scene s))
      in if n = 0 then None
         else if tiled src then Some (nat (\<bar>x c + y c + z c\<bar> mod n))
         else if source_id src < 0 \<and> \<bar>source_id src\<bar> mod n \<noteq> 0 then None
         else Some (nat (\<bar>source_id src\<bar> mod n)))"

definition updateActiveStyles :: "TileManager \<Rightarrow> TileManager" where
  "updateActiveStyles s =
     (let active = fold (\<lambda>tile act.
                      fold (\<lambda>style a. if style \<in> set a then a else a @ [style])
                           (map fst (meshes (heap s tile))) act)
                    (renderable_tiles s) []
      in s\<lparr>active_styles := active\<rparr>)"

subsection \<open>Sorting\<close>

text \<open>
  \<open>Array.prototype.sort\<close> is a built-in of the language. For a comparison function that
  is consistent on the array, ECMAScript fixes the result, the stable sort of the array;
  for an inconsistent one it leaves the order to the engine. \<open>array_sort\<close> is the
  algorithm V8 (Node, Chrome) runs on arrays of fewer than 64 elements: the leading run
  is found by comparing each element with its predecessor, a strictly descending run is
  reversed, and every further element is put in place by binary insertion. The
  comparison function is always called with the later element first.
\<close>

fun take_run :: "bool \<Rightarrow> ('a \<Rightarrow> 'a \<Rightarrow> int) \<Rightarrow> 'a \<Rightarrow> 'a list \<Rightarrow> 'a list \<times> 'a list" where
  "take_run descending cmp previous [] = ([], [])"
| "take_run descending cmp previous (current # rest) =
     (if (if descending then cmp current previous < 0 else 0 \<le> cmp current previous)
      then (case take_run descending cmp current rest of
              (run, rest') \<Rightarrow> (current # run, rest'))
      else ([], current # rest))"

text \<open>
  Binary insertion of \<open>pivot\<close> into the sorted prefix \<open>ps\<close>: the search interval is
  halved at \<open>mid = left + ((right - left) >> 1)\<close>, going left when
  \<open>cmp pivot ps[mid] < 0\<close> and right of \<open>mid\<close> otherwise.
\<close>

fun binary_insert :: "('a \<Rightarrow> 'a \<Rightarrow> int) \<Rightarrow> 'a \<Rightarrow> 'a list \<Rightarrow> 'a list" where
  "binary_insert cmp pivot ps =
     (if ps = [] then [pivot]
      else if cmp pivot (ps ! (length ps div 2)) < 0
      then binary_insert cmp pivot (take (length ps div 2) ps) @ drop (length ps div 2) ps
      else take (length ps div 2 + 1) ps
             @ binary_insert cmp pivot (drop (length ps div 2 + 1) ps))"

definition array_sort :: "('a \<Rightarrow> 'a \<Rightarrow> int) \<Rightarrow> 'a list \<Rightarrow> 'a list" where
  "array_sort cmp xs =
     (case xs of
        a # b # cs \<Rightarrow>
          (let descending = cmp b a < 0;
               (run, rest) = take_run descending cmp b cs;
               sorted_run = (if descending then rev (a # b # run) else a # b # run)
           in foldl (\<lambda>ps pivot. binary_insert cmp pivot ps) sorted_run rest)
      | _ \<Rightarrow> xs)"

subsection \<open>Label-collision debounce\<close>

text \<open>
  \<open>x.toFixed(2)\<close> prints a minus sign when \<open>x < 0\<close> and then the integer number of
  hundredths nearest to \<open>|x|\<close>, the larger one on a tie.
\<close>

definition toFixed2 :: "rat \<Rightarrow> fixed" where
  "toFixed2 v = Fixed (v < 0) \<lfloor>\<bar>v\<bar> * 100 + 1 / 2\<rfloor>"

text \<open>
  \<open>(Math.floor(x * d) / d).toFixed(2)\<close>, the product and the quotient in double
  arithmetic. With \<open>d = 0\<close> the quotient is \<open>0 / 0\<close>, printed as \<open>NaN\<close>.
\<close>

definition roundPrecision :: "Externals \<Rightarrow> rat \<Rightarrow> int \<Rightarrow> fixed" where
  "roundPrecision X v d =
     (if d = 0 then NaN
      else toFixed2 (fl_div X (of_int \<lfloor>fl_mul X v (of_int d)\<rfloor>) (of_int d)))"

definition meshSetString :: "(ref \<Rightarrow> Tile) \<Rightarrow> ref list \<Rightarrow> int list list list" where
  "meshSetString h ts =
     map (\<lambda>t. map (\<lambda>(style, ms). map created_at ms) (meshes (h t))) ts"

definition build_id_cmp :: "(ref \<Rightarrow> Tile) \<Rightarrow> ref \<Rightarrow> ref \<Rightarrow> int" where
  "build_id_cmp h a b =
     (if build_id (h a) < build_id (h b) then - 1
      else if build_id (h a) > build_id (h b) then 1 else 0)"

definition label_tiles :: "TileManager \<Rightarrow> ref list" where
  "label_tiles s =
     array_sort (build_id_cmp (heap s))
       (filter (\<lambda>t. built (heap s t)) (filter (\<lambda>t. valid (heap s t)) (renderable_tiles s)))"

definition updateLabels :: "Externals \<Rightarrow> TileManager \<Rightarrow> TileManager" where
  "updateLabels X s =
     (if (case building (scene s) of None \<Rightarrow> False | Some initial \<Rightarrow> \<not> initial) then s
      else
        let ts = label_tiles s in
        if length ts = 0 then s
        else if collision_zoom (collision s)
                  = Some (roundPrecision X (zoom (view s)) (zoom_steps (collision s))) \<and>
                tile_keys (collision s) = Some (map (\<lambda>t. key (heap s t)) ts) \<and>
                mesh_set (collision s) = Some (meshSetString (heap s) ts)
        then s
        else if task (collision s) = None
        then emit (TaskAdd ts)
               (s\<lparr>collision := (collision s)
                    \<lparr>collision_zoom :=
                        Some (roundPrecision X (zoom (view s)) (zoom_steps (collision s))),
                     tile_keys := Some (map (\<lambda>t. key (heap s t)) ts),
                     mesh_set := Some (meshSetString (heap s) ts),
                     task := Some ts\<rparr>\<rparr>)
        else s)"

subsection \<open>Proxy tiles\<close>

text \<open>
  Modelled from the spec: \<open>Tile.setProxyFor\<close> is not in the sources; the spec calls it
  "a proxy-assignment setter" for the \<open>proxy_for\<close> relation, cleared with \<open>null\<close>.
\<close>

definition setProxyFor :: "ref \<Rightarrow> ref option \<Rightarrow> TileManager \<Rightarrow> TileManager" where
  "setProxyFor r target s =
     s\<lparr>heap := (heap s)(r := (heap s r)
          \<lparr>proxy_for := (case target of None \<Rightarrow> [] | Some t \<Rightarrow> proxy_for (heap s r) @ [t])\<rparr>)\<rparr>"

definition proxy_step :: "Externals \<Rightarrow> ref \<Rightarrow> TileManager \<times> bool \<Rightarrow> TileManager \<times> bool" where
  "proxy_step X tile sp =
     (let s = fst sp; proxy = snd sp in
      if zoom_direction (view s) = 1 then
        (if visible (heap s tile) \<and> \<not> labeled (heap s tile) then
           (case getAncestor X (heap s) (pyramid s) tile of
              Some parent \<Rightarrow> (setProxyFor parent (Some tile) s, True)
            | None \<Rightarrow> (s, proxy))
         else (s, proxy))
      else if zoom_direction (view s) = - 1 then
        (if visible (heap s tile) \<and> \<not> labeled (heap s tile) then
           (let descendants = getDescendants X (heap s) (pyramid s) tile
            in (fold (\<lambda>d. setProxyFor d (Some tile)) descendants s,
                proxy \<or> descendants \<noteq> []))
         else (s, proxy))
      else (s, proxy))"

definition updateProxyTiles :: "Externals \<Rightarrow> TileManager \<Rightarrow> TileManager" where
  "updateProxyTiles X s =
     (if zoom_direction (view s) = 0 then s
      else
        let s1 = forEachTile (\<lambda>tile. setProxyFor tile None) s;
            sp = fold (proxy_step X) (map snd (tiles s1)) (s1, False)
        in if \<not> snd sp then (fst sp)\<lparr>view := (view (fst sp))\<lparr>zoom_direction := 0\<rparr>\<rparr>
           else fst sp)"

subsection \<open>Loading\<close>

text \<open>
  Modelled from the spec: \<open>Tile.build\<close> is not in the sources; the spec says that
  starting a build "stamps the tile with the current global configuration generation"
  and hands the tile to a worker.
\<close>

definition tile_build :: "ref \<Rightarrow> int \<Rightarrow> TileManager \<Rightarrow> TileManager" where
  "tile_build r g s =
     emit (Build r g) (s\<lparr>heap := (heap s)(r := (heap s r)\<lparr>generation := g\<rparr>)\<rparr>)"

definition buildTile :: "Externals \<Rightarrow> ref \<Rightarrow> TileManager \<Rightarrow> TileManager" where
  "buildTile X tile s =
     (let s1 = tileBuildStart (key (heap s tile)) s;
          s2 = updateVisibility X tile s1
      in tile_build tile (scene_generation (scene s2)) s2)"

text \<open>
  \<open>new Tile(...)\<close> allocates a fresh tile object; the constructor itself is the
  parameter \<open>newTile\<close>, which also receives the serial number of the object. The
  test \<open>key && ...\<close> fails for a missing key (\<open>None\<close>) and for the empty string.
\<close>

definition loadSource :: "Externals \<Rightarrow> TileCoordinate \<Rightarrow> Source \<Rightarrow> TileManager \<Rightarrow> TileManager" where
  "loadSource X c src s =
     (if \<not> builds_geometry_tiles src \<or> \<not> includesTile X src c (tile_zoom (view s)) then s
      else
        (case normalizedKey X c src (tile_zoom (view s)) of
           None \<Rightarrow> s
         | Some k \<Rightarrow>
             if k = [] \<or> hasTile k s then s
             else
               (let r = next_ref s;
                    tile = newTile X r src c (getWorkerForTile c src s) (baseZoom X (z c));
                    s1 = s\<lparr>heap := (heap s)(r := tile), next_ref := Suc r\<rparr>
                in buildTile X r (keepTile r s1))))"

definition loadCoordinate :: "Externals \<Rightarrow> TileCoordinate \<Rightarrow> TileManager \<Rightarrow> TileManager" where
  "loadCoordinate X c s =
     (if z c \<noteq> center_tile_z (view s) then s
      else fold (loadSource X c) (map snd (sources (scene s))) s)"

text \<open>
  The comparison function of \<open>loadQueuedCoordinates\<close>, in double arithmetic. Both tile
  centres are offset by the half span of the zoom of the first argument. The
  \<open>center_dist\<close> annotation it writes on the coordinates is only read by a log message
  and is left out.
\<close>

definition center_cmp :: "Externals \<Rightarrow> TileManager \<Rightarrow> TileCoordinate \<Rightarrow> TileCoordinate \<Rightarrow> int" where
  "center_cmp X s a b =
     (let center = center_meters (view s);
          half_span = fl_div X (metersPerTile X (z a)) 2;
          ac = (fl_add X (fst (metersForTile X a)) half_span,
                fl_sub X (snd (metersForTile X a)) half_span);
          bc = (fl_add X (fst (metersForTile X b)) half_span,
                fl_sub X (snd (metersForTile X b)) half_span);
          ad = fl_add X \<bar>fl_sub X (fst center) (fst ac)\<bar> \<bar>fl_sub X (snd center) (snd ac)\<bar>;
          bd = fl_add X \<bar>fl_sub X (fst center) (fst bc)\<bar> \<bar>fl_sub X (snd center) (snd bc)\<bar>
      in if bd > ad then - 1 else if bd = ad then 0 else 1)"

text \<open>The order in which \<open>loadQueuedCoordinates\<close> hands the queue to \<open>loadCoordinate\<close>.\<close>

definition dispatch_order :: "Externals \<Rightarrow> TileManager \<Rightarrow> TileCoordinate list" where
  "dispatch_order X s = array_sort (center_cmp X s) (queued_coords s)"

definition loadQueuedCoordinates :: "Externals \<Rightarrow> TileManager \<Rightarrow> TileManager" where
  "loadQueuedCoordinates X s =
     (if length (queued_coords s) = 0 then s
      else
        let sorted = dispatch_order X s;
            s1 = s\<lparr>queued_coords := sorted\<rparr>;
            s2 = fold (loadCoordinate X) sorted s1
        in s2\<lparr>queued_coords := []\<rparr>)"

definition updateTileStates :: "Externals \<Rightarrow> TileManager \<Rightarrow> error + TileManager" where
  "updateTileStates X s =
     (let s1 = forEachTile (updateVisibility X) s;
          s2 = loadQueuedCoordinates X s1;
          s3 = updateProxyTiles X s2
      in case pruneTilesForView X s3 of
           Inl e \<Rightarrow> Inl e
         | Inr s4 \<Rightarrow> Inr (updateLabels X (updateActiveStyles (updateRenderableTiles s4))))"

text \<open>
  The callback that runs when the collision pass of the in-flight task has finished:
  it clears the in-flight marker, finishes the task and runs the per-frame
  reconciliation again, whose last step is the next call of \<open>updateLabels\<close>.
\<close>

definition collisionPassDone :: "Externals \<Rightarrow> TileManager \<Rightarrow> error + TileManager" where
  "collisionPassDone X s =
     (let s1 = s\<lparr>collision := (collision s)\<lparr>task := None\<rparr>\<rparr>;
          s2 = emit TaskFinish s1
      in case updateTileStates X s2 of
           Inl e \<Rightarrow> Inl e
         | Inr s3 \<Rightarrow> Inr (emit ImmediateRedraw s3))"

section \<open>Build results\<close>

text \<open>
  \<open>buildTileStylesCompleted\<close> receives the tile a worker sends back (a value, not one
  of the manager's objects) and the progress report. In the last branch \<open>tile\<close> is
  rebound to the cached object that \<open>merge\<close> updated, so the final \<open>tile.key\<close> is read
  from that object.
\<close>

definition buildTileStylesCompleted ::
  "Externals \<Rightarrow> Tile \<Rightarrow> Progress \<Rightarrow> TileManager \<Rightarrow> error + TileManager" where
  "buildTileStylesCompleted X tile progress s =
     (case map_of (tiles s) (key tile) of
        None \<Rightarrow>
          (case updateTileStates X (Tile_abortBuild tile s) of
             Inl e \<Rightarrow> Inl e
           | Inr s1 \<Rightarrow>
               Inr (if progress_done progress then tileBuildStop (key tile) s1 else s1))
      | Some cached \<Rightarrow>
          if generation tile \<noteq> scene_generation (scene s) then
            (case updateTileStates X (Tile_abortBuild tile s) of
               Inl e \<Rightarrow> Inl e
             | Inr s1 \<Rightarrow>
                 Inr (if progress_done progress then tileBuildStop (key tile) s1 else s1))
          else if tile_id tile < tile_id (heap s cached) then
            Inr (Tile_abortBuild tile s)
          else
            (let s1 = s\<lparr>heap := (heap s)(cached := merge X (heap s cached) tile)\<rparr>;
                 s2 = (if progress_done progress
                       then s1\<lparr>heap := (heap s1)(cached := (heap s1 cached)\<lparr>built := True\<rparr>)\<rparr>
                       else s1);
                 s3 = s2\<lparr>heap := (heap s2)(cached := buildMeshes X progress (heap s2 cached))\<rparr>
             in case updateTileStates X s3 of
                  Inl e \<Rightarrow> Inl e
                | Inr s4 \<Rightarrow>
                    (let s5 = emit RequestRedraw s4
                     in Inr (if progress_done progress
                             then tileBuildStop (key (heap s5 cached)) s5 else s5))))"

definition buildTileError :: "Tile \<Rightarrow> TileManager \<Rightarrow> TileManager" where
  "buildTileError tile s = Tile_abortBuild tile (forgetTile (key tile) s)"

section \<open>Notions used by the properties\<close>

text \<open>
  The representation invariant of the cache: keys are unique (it is an object), every
  tile is stored under its own \<open>key\<close> (as \<open>keepTile\<close> stores it), and every cached
  object was allocated before \<open>next_ref\<close>.
\<close>

definition cache_wf :: "TileManager \<Rightarrow> bool" where
  "cache_wf s =
     (distinct (map fst (tiles s)) \<and>
      list_all (\<lambda>(k, tile). key (heap s tile) = k \<and> tile < next_ref s) (tiles s))"

text \<open>A tile object is in the cache exactly when it is in the spatial index.\<close>

definition cache_index_coupled :: "TileManager \<Rightarrow> bool" where
  "cache_index_coupled s = (set (map snd (tiles s)) = set (pyramid s))"

text \<open>The build tracker has an entry for the key; \<open>null\<close> holds no entry.\<close>

definition tracked :: "key \<Rightarrow> TileManager \<Rightarrow> bool" where
  "tracked k s = (case building_tiles s of None \<Rightarrow> False | Some ks \<Rightarrow> k \<in> set ks)"

text \<open>The cached tiles that are visible and built, in cache order.\<close>

definition visible_and_built_tiles :: "TileManager \<Rightarrow> ref list" where
  "visible_and_built_tiles s =
     filter (\<lambda>tile. visible (heap s tile) \<and> built (heap s tile)) (map snd (tiles s))"

text \<open>
  The collision fingerprint of the current state: zoom bucket, ordered keys of the
  tiles \<open>updateLabels\<close> would lay out, and their mesh timestamps.
\<close>

definition fingerprint ::
  "Externals \<Rightarrow> TileManager \<Rightarrow> fixed \<times> key list \<times> int list list list" where
  "fingerprint X s =
     (roundPrecision X (zoom (view s)) (zoom_steps (collision s)),
      map (\<lambda>t. key (heap s t)) (label_tiles s),
      meshSetString (heap s) (label_tiles s))"

text \<open>The fingerprint stored in \<open>c\<close> is the current fingerprint of \<open>s\<close>.\<close>

definition fingerprint_stored :: "Externals \<Rightarrow> TileManager \<Rightarrow> TileManager \<Rightarrow> bool" where
  "fingerprint_stored X c s =
     (collision_zoom (collision c) = Some (fst (fingerprint X s)) \<and>
      tile_keys (collision c) = Some (fst (snd (fingerprint X s))) \<and>
      mesh_set (collision c) = Some (snd (snd (fingerprint X s))))"

fun is_TaskAdd :: "event \<Rightarrow> bool" where
  "is_TaskAdd (TaskAdd ts) = True"
| "is_TaskAdd e = False"

text \<open>The number of collision tasks handed to \<open>Task.add\<close> so far.\<close>

definition collision_tasks :: "TileManager \<Rightarrow> nat" where
  "collision_tasks s = length (filter is_TaskAdd (events s))"


text \<open>
  \<open>t'\<close> is \<open>t\<close> up to the two fields the per-frame reconciliation recomputes on every
  tile, \<open>visible\<close> and \<open>proxy_for\<close>: everything a build result could change is equal.
\<close>

definition same_content :: "Tile \<Rightarrow> Tile \<Rightarrow> bool" where
  "same_content t t' = (t' = t\<lparr>visible := visible t', proxy_for := proxy_for t'\<rparr>)"

text \<open>A step that keeps the cache and the store, up to \<open>visible\<close> and \<open>proxy_for\<close>.\<close>

definition touched :: "TileManager \<Rightarrow> TileManager \<Rightarrow> bool" where
  "touched s s' =
     (tiles s' = tiles s \<and> next_ref s' = next_ref s \<and>
      (\<forall>r. same_content (heap s r) (heap s' r)))"

text \<open>A step that may allocate tiles and keeps the content of the existing ones.\<close>

definition steady :: "TileManager \<Rightarrow> TileManager \<Rightarrow> bool" where
  "steady s s' =
     (next_ref s \<le> next_ref s' \<and> (\<forall>r < next_ref s. same_content (heap s r) (heap s' r)))"

text \<open>
  A step that may allocate tiles and leaves the view, the visible coordinates and the
  existing tile objects exactly as they were.
\<close>

definition kept :: "TileManager \<Rightarrow> TileManager \<Rightarrow> bool" where
  "kept s s' =
     (next_ref s \<le> next_ref s' \<and> view s' = view s \<and>
      visible_coords s' = visible_coords s \<and> (\<forall>r < next_ref s. heap s' r = heap s r))"

text \<open>The value \<open>updateVisibility\<close> assigns to \<open>tile.visible\<close>.\<close>

definition computed_visible :: "Externals \<Rightarrow> TileManager \<Rightarrow> Tile \<Rightarrow> bool" where
  "computed_visible X s tile =
     (style_z tile = tile_zoom (view s) \<and>
      (map_of (visible_coords s) (coord_key (coords tile)) \<noteq> None \<or>
       list_ex (\<lambda>(k, c). isDescendant X (coords tile) c) (visible_coords s)))"

text \<open>
  The tile is as the last reconciliation left it: its \<open>visible\<close> flag agrees with the
  view, and no zoom transition is under way, so no proxies are assigned.
\<close>

definition reconciled :: "Externals \<Rightarrow> TileManager \<Rightarrow> ref \<Rightarrow> bool" where
  "reconciled X s tile =
     (visible (heap s tile) = computed_visible X s (heap s tile) \<and>
      zoom_direction (view s) = 0)"

text \<open>
  What the properties of the accepted build result need from the \<open>Tile\<close> class:
  merging a result into the tile of the same key and building meshes keep the key.
\<close>

definition tile_methods_keep_key :: "Externals \<Rightarrow> bool" where
  "tile_methods_keep_key X =
     ((\<forall>a b. key a = key b \<longrightarrow> key (merge X a b) = key a) \<and>
      (\<forall>p t. key (buildMeshes X p t) = key t))"

section \<open>Example states\<close>

definition ex_coords :: TileCoordinate where
  "ex_coords = \<lparr>x = 5, y = 3, z = 10, coord_key = ''5/3/10''\<rparr>"

definition ex_source :: Source where
  "ex_source =
     \<lparr>source_name = ''osm'', source_id = 0, tiled = True, builds_geometry_tiles = True\<rparr>"

text \<open>A tile whose data is loaded and partly built: visible, not yet \<open>built\<close>.\<close>

definition ex_tile :: Tile where
  "ex_tile = \<lparr>key = ''osm/5/3/10'', tile_id = 2, generation = 1, coords = ex_coords,
     source = ex_source, style_z = 10, worker = Some 0, visible = True, built = False,
     loaded = True, labeled = False, valid = True, build_id = 0,
     meshes = [(''polygons'', [\<lparr>created_at = 100\<rparr>])], proxy_for = []\<rparr>"

text \<open>A manager that caches this one tile, with its build still tracked.\<close>

definition ex_manager :: TileManager where
  "ex_manager = \<lparr>heap = (\<lambda>_. ex_tile), next_ref = 1, tiles = [(''osm/5/3/10'', 0)],
     pyramid = [0], visible_coords = [(''5/3/10'', ex_coords)], queued_coords = [],
     building_tiles = Some [''osm/5/3/10''], renderable_tiles = [0], active_styles = [],
     collision = \<lparr>mesh_set = None, tile_keys = None, collision_zoom = None, zoom_steps = 3,
                   task = None\<rparr>,
     scene = \<lparr>scene_generation = 1, building = None, sources = [(''osm'', ex_source)],
               workers = 2\<rparr>,
     view = \<lparr>zoom = 10, tile_zoom = 10, center_meters = (0, 0), center_tile_z = 10,
              zoom_direction = 0\<rparr>,
     events = []\<rparr>"

text \<open>
  Collaborators for the examples: a world \<open>1048576\<close> metres around, tiles keyed by source
  and coordinate, a merge that copies the fields a worker fills in. All numbers of the
  examples are integers far below \<open>2 ^ 53\<close> or halves of such, on which double
  arithmetic is exact.
\<close>

definition ex_externals :: Externals where
  "ex_externals = \<lparr>
     isDescendant = (\<lambda>a b. False),
     normalizedKey = (\<lambda>c src zz. Some (source_name src @ ''/'' @ coord_key c)),
     includesTile = (\<lambda>src c zz. True),
     baseZoom = (\<lambda>zz. zz),
     metersPerTile = (\<lambda>zz. 1048576 / 2 ^ nat zz),
     metersForTile = (\<lambda>c. (of_int (x c) * (1048576 / 2 ^ nat (z c)) - 524288,
                            - (of_int (y c) * (1048576 / 2 ^ nat (z c)) - 524288))),
     newTile = (\<lambda>n src c w sz.
        \<lparr>key = source_name src @ ''/'' @ coord_key c, tile_id = int n, generation = 0,
         coords = c, source = src, style_z = sz, worker = w, visible = False,
         built = False, loaded = False, labeled = False, valid = True, build_id = int n,
         meshes = [], proxy_for = []\<rparr>),
     merge = (\<lambda>cached other. cached\<lparr>tile_id := tile_id other,
                 generation := generation other, loaded := loaded other,
                 meshes := meshes other\<rparr>),
     buildMeshes = (\<lambda>p t. t),
     getAncestor = (\<lambda>h idx t. None),
     getDescendants = (\<lambda>h idx t. []),
     outsideRetention = (\<lambda>v t. False),
     fl_add = (\<lambda>a b. a + b),
     fl_sub = (\<lambda>a b. a - b),
     fl_mul = (\<lambda>a b. a * b),
     fl_div = (\<lambda>a b. a / b)\<rparr>"

text \<open>A build result for the cached key with an older id than the cached tile.\<close>

definition ex_result :: Tile where
  "ex_result = ex_tile\<lparr>tile_id := 1\<rparr>"

text \<open>A build result for the cached key from an older scene configuration.\<close>

definition ex_stale :: Tile where
  "ex_stale = ex_tile\<lparr>generation := 0, built := True, meshes := []\<rparr>"

text \<open>A build result for the cached tile itself, and one for a key that is not cached.\<close>

definition ex_fresh :: Tile where
  "ex_fresh = ex_tile\<lparr>meshes := [(''lines'', [\<lparr>created_at = 200\<rparr>])]\<rparr>"

definition ex_removed :: Tile where
  "ex_removed = ex_tile\<lparr>key := ''osm/6/3/10''\<rparr>"

definition ex_done :: Progress where
  "ex_done = \<lparr>progress_done = True\<rparr>"

definition ex_built :: TileManager where
  "ex_built = ex_manager\<lparr>heap := (\<lambda>_. ex_tile\<lparr>built := True\<rparr>)\<rparr>"

definition ex_initial_build :: TileManager where
  "ex_initial_build = ex_built\<lparr>scene := (scene ex_built)\<lparr>building := Some True\<rparr>\<rparr>"

definition ex_rebuild :: TileManager where
  "ex_rebuild = ex_built\<lparr>scene := (scene ex_built)\<lparr>building := Some False\<rparr>\<rparr>"








text \<open>
  The cached tile is in the visible coordinates but its \<open>visible\<close> flag is still false.
\<close>

definition ex_hidden :: TileManager where
  "ex_hidden = ex_manager\<lparr>heap := (\<lambda>_. ex_tile\<lparr>visible := False\<rparr>)\<rparr>"

text \<open>
  A collision task is in flight for an earlier tile set (its fingerprint has other
  keys), and the same state after that task has completed and cleared the marker.
\<close>

definition ex_inflight :: TileManager where
  "ex_inflight = ex_built\<lparr>collision := (collision ex_built)
      \<lparr>collision_zoom := Some (Fixed False 1000), tile_keys := Some [''osm/4/3/10''],
       mesh_set := Some [[[50]]], task := Some [7]\<rparr>\<rparr>"

definition ex_completed :: TileManager where
  "ex_completed = ex_inflight\<lparr>collision := (collision ex_inflight)\<lparr>task := None\<rparr>\<rparr>"


section \<open>Basic facts\<close>

lemmas ex_defs = ex_manager_def ex_tile_def ex_source_def ex_coords_def

lemma emit_fields [simp]:
  "heap (emit e s) = heap s" "next_ref (emit e s) = next_ref s" "tiles (emit e s) = tiles s"
  "pyramid (emit e s) = pyramid s" "building_tiles (emit e s) = building_tiles s"
  "visible_coords (emit e s) = visible_coords s" "queued_coords (emit e s) = queued_coords s"
  "scene (emit e s) = scene s" "view (emit e s) = view s" "collision (emit e s) = collision s"
  "renderable_tiles (emit e s) = renderable_tiles s"
  "events (emit e s) = events s @ [e]"
  by (simp_all add: emit_def)

lemma tileBuildStop_fields [simp]:
  "heap (tileBuildStop k s) = heap s" "next_ref (tileBuildStop k s) = next_ref s"
  "tiles (tileBuildStop k s) = tiles s" "pyramid (tileBuildStop k s) = pyramid s"
  "visible_coords (tileBuildStop k s) = visible_coords s"
  "queued_coords (tileBuildStop k s) = queued_coords s"
  "scene (tileBuildStop k s) = scene s" "view (tileBuildStop k s) = view s"
  "collision (tileBuildStop k s) = collision s"
  "renderable_tiles (tileBuildStop k s) = renderable_tiles s"
  by (simp_all add: tileBuildStop_def checkBuildQueue_def split: option.splits)

lemma tileBuildStop_untracked: "\<not> tracked k (tileBuildStop k s)"
  by (simp add: tracked_def tileBuildStop_def checkBuildQueue_def split: option.splits)

lemma tracked_emit [simp]: "tracked k (emit e s) = tracked k s"
  by (simp add: tracked_def)

lemma hasTile_emit [simp]: "hasTile k (emit e s) = hasTile k s"
  by (simp add: hasTile_def)

lemma cache_wf_emit [simp]: "cache_wf (emit e s) = cache_wf s"
  by (simp add: cache_wf_def)

lemma coupled_emit [simp]: "cache_index_coupled (emit e s) = cache_index_coupled s"
  by (simp add: cache_index_coupled_def)

section \<open>Admission and eviction\<close>



lemma cache_wf_key:
  "cache_wf s \<Longrightarrow> map_of (tiles s) k = Some tile \<Longrightarrow> key (heap s tile) = k"
  by (auto simp add: cache_wf_def list_all_iff dest!: map_of_SomeD)




lemma removeTile_eq:
  assumes "cache_wf s" and "map_of (tiles s) k = Some tile"
  shows "removeTile k s = Inr (emit RequestRedraw (forgetTile k (emit (Destroy tile) s)))"
  using assms cache_wf_key [OF assms]
  by (simp add: removeTile_def tile_destroy_def)

lemma forgetTile_not_cached: "\<not> hasTile k (forgetTile k s)"
  by (simp add: forgetTile_def hasTile_def AList.delete_conv' Let_def)

lemma forgetTile_not_indexed:
  "map_of (tiles s) k = Some cached \<Longrightarrow> cached \<notin> set (pyramid (forgetTile k s))"
  by (simp add: forgetTile_def hasTile_def pyramid_removeTile_def)

lemma forgetTile_untracked: "\<not> tracked k (forgetTile k s)"
  by (simp add: forgetTile_def Let_def tileBuildStop_untracked)




text \<open>
  C10. \<open>removeTile\<close> throws exactly when the key is not cached: it ends in the
  \<open>TypeError\<close> of reading \<open>key\<close> from \<open>undefined\<close> if and only if \<open>hasTile\<close> is false, so
  it is not a total removal that silently succeeds for absent keys.
\<close>

theorem removeTile_requires_cached_key:
  "removeTile k s = Inl TypeError \<longleftrightarrow> \<not> hasTile k s"
  by (simp add: removeTile_def hasTile_def Let_def split: option.splits)

theorem removeTile_requires_cached_key_witness:
  "\<not> hasTile ''absent'' ex_manager \<and> removeTile ''absent'' ex_manager = Inl TypeError"
  using removeTile_requires_cached_key [of "''absent''" ex_manager]
  by (simp add: hasTile_def ex_defs)

text \<open>
  C9, as stated, fails: for the cached example tile a build error leaves no
  \<open>Destroy\<close> of the tile and no \<open>RequestRedraw\<close> among the calls made; the handler only
  signals the drained build queue and aborts the build of the result.
\<close>

theorem build_error_no_destroy_no_redraw:
  "map_of (tiles ex_manager) (key ex_result) = Some 0 \<and>
   events (buildTileError ex_result ex_manager) = [TileManagerBuildDone, AbortBuild ex_result]"
  by (simp add: buildTileError_def Tile_abortBuild_def forgetTile_def hasTile_def
        pyramid_removeTile_def tileBuildStop_def checkBuildQueue_def emit_def ex_defs
        ex_result_def)

text \<open>
  C9, amended. A build error unconditionally forgets the tile: afterwards its key is
  not cached, the tile object that was cached under it is not in the index, the build
  tracker has no entry for the key, and the last call made releases the build-side
  resources of the result (\<open>Tile.abortBuild\<close>).
\<close>

theorem build_error_forgets_tile:
  "\<not> hasTile (key tile) (buildTileError tile s) \<and>
   (\<forall>cached. map_of (tiles s) (key tile) = Some cached
        \<longrightarrow> cached \<notin> set (pyramid (buildTileError tile s))) \<and>
   \<not> tracked (key tile) (buildTileError tile s) \<and>
   last (events (buildTileError tile s)) = AbortBuild tile"
  by (simp add: buildTileError_def Tile_abortBuild_def forgetTile_not_cached
        forgetTile_not_indexed forgetTile_untracked)

theorem build_error_forgets_tile_witness:
  "map_of (tiles ex_manager) (key ex_result) = Some 0 \<and>
   0 \<notin> set (pyramid (buildTileError ex_result ex_manager)) \<and>
   \<not> hasTile (key ex_result) (buildTileError ex_result ex_manager)"
  using build_error_forgets_tile [of ex_result ex_manager]
  by (simp add: ex_defs ex_result_def)

section \<open>Renderable tiles\<close>

text \<open>
  C5, as stated, fails: the example tile is visible and loaded but not built, and
  \<open>updateRenderableTiles\<close> lists it, so the renderable list is not the list of the
  cached tiles that are visible and built.
\<close>

theorem renderable_not_visible_and_built:
  "renderable_tiles (updateRenderableTiles ex_manager) = [0] \<and>
   visible_and_built_tiles ex_manager = [] \<and>
   renderable_tiles (updateRenderableTiles ex_manager) \<noteq> visible_and_built_tiles ex_manager"
  by (simp add: updateRenderableTiles_def visible_and_built_tiles_def ex_defs)

text \<open>
  C5, amended. After \<open>updateRenderableTiles\<close> the renderable list contains exactly the
  cached tiles that are visible and loaded (\<open>visible && loaded\<close>), and no others.
\<close>

theorem renderable_is_visible_and_loaded:
  "tile \<in> set (renderable_tiles (updateRenderableTiles s)) \<longleftrightarrow>
     tile \<in> snd ` set (tiles s) \<and> visible (heap s tile) \<and> loaded (heap s tile)"
  by (auto simp add: updateRenderableTiles_def)

section \<open>Label-collision debounce\<close>

declare binary_insert.simps [simp del]

lemma fingerprint_updateLabels: "fingerprint X (updateLabels X s) = fingerprint X s"
  by (simp add: fingerprint_def updateLabels_def emit_def label_tiles_def Let_def)

lemma fingerprint_task [simp]:
  "fingerprint X (s\<lparr>collision := (collision s)\<lparr>task := t\<rparr>\<rparr>) = fingerprint X s"
  by (simp add: fingerprint_def label_tiles_def)

lemma collision_tasks_emit [simp]:
  "collision_tasks (emit (TaskAdd ts) s) = collision_tasks s + 1"
  by (simp add: collision_tasks_def)

lemma collision_tasks_updateLabels:
  "collision_tasks (updateLabels X s) \<le> collision_tasks s + 1"
  by (simp add: updateLabels_def emit_def Let_def collision_tasks_def)

lemma label_tiles_empty_iff:
  assumes "fingerprint X s' = fingerprint X s"
  shows "label_tiles s' = [] \<longleftrightarrow> label_tiles s = []"
proof -
  from assms
  have "map (\<lambda>t. key (heap s' t)) (label_tiles s') = map (\<lambda>t. key (heap s t)) (label_tiles s)"
    by (simp add: fingerprint_def)
  then have "length (label_tiles s') = length (label_tiles s)"
    by (metis length_map)
  then show ?thesis by auto
qed

lemma updateLabels_alt:
  "updateLabels X s =
     (if building (scene s) = Some False \<or> label_tiles s = [] \<or> fingerprint_stored X s s
         \<or> task (collision s) \<noteq> None
      then s
      else emit (TaskAdd (label_tiles s))
             (s\<lparr>collision := (collision s)
                  \<lparr>collision_zoom := Some (fst (fingerprint X s)),
                   tile_keys := Some (fst (snd (fingerprint X s))),
                   mesh_set := Some (snd (snd (fingerprint X s))),
                   task := Some (label_tiles s)\<rparr>\<rparr>))"
  by (cases "building (scene s)")
     (auto simp add: updateLabels_def fingerprint_stored_def fingerprint_def Let_def)

text \<open>
  C4, as stated, fails: while an initial build is in progress (\<open>scene.building.initial\<close>
  is true) \<open>updateLabels\<close> on the example stores a fingerprint and schedules a task.
\<close>

theorem updateLabels_runs_during_initial_build:
  "building (scene ex_initial_build) = Some True \<and>
   events (updateLabels ex_externals ex_initial_build) = [TaskAdd [0]] \<and>
   tile_keys (collision (updateLabels ex_externals ex_initial_build)) = Some [''osm/5/3/10'']"
  by (simp add: updateLabels_def label_tiles_def array_sort_def emit_def Let_def
        ex_initial_build_def ex_built_def ex_defs)

text \<open>
  C4, amended. Whenever a scene rebuild that is not the initial build is in progress
  (\<open>scene.building\<close> is set and its \<open>initial\<close> flag is false), \<open>updateLabels\<close> is a no-op:
  the state, with the stored fingerprint and the scheduled tasks, is unchanged.
\<close>

theorem updateLabels_noop_during_rebuild:
  "building (scene s) = Some False \<Longrightarrow> updateLabels X s = s"
  by (simp add: updateLabels_def)

theorem updateLabels_noop_during_rebuild_witness:
  "building (scene ex_rebuild) = Some False \<and> updateLabels ex_externals ex_rebuild = ex_rebuild"
  using updateLabels_noop_during_rebuild [of ex_rebuild ex_externals]
  by (simp add: ex_rebuild_def ex_built_def ex_defs)

text \<open>
  C8, as stated, fails in its second clause. A task is in flight for an earlier tile
  set, so a first call schedules nothing and leaves the stored fingerprint alone. The
  task completes and its callback clears the marker (\<open>collisionPassDone\<close>); the
  fingerprint of the state is what it was at the first call. The next call schedules
  a new task.
\<close>

theorem second_call_schedules_after_completion:
  "updateLabels ex_externals ex_inflight = ex_inflight \<and>
   fingerprint ex_externals ex_completed = fingerprint ex_externals ex_inflight \<and>
   collision ex_completed = (collision ex_inflight)\<lparr>task := None\<rparr> \<and>
   collision_tasks ex_completed = 0 \<and>
   collision_tasks (updateLabels ex_externals ex_completed) = 1"
proof -
  have "updateLabels ex_externals ex_inflight = ex_inflight"
    by (simp add: updateLabels_alt ex_inflight_def)
  moreover have "fingerprint ex_externals ex_completed = fingerprint ex_externals ex_inflight"
    by (simp add: ex_completed_def)
  moreover have "collision ex_completed = (collision ex_inflight)\<lparr>task := None\<rparr>"
    by (simp add: ex_completed_def)
  moreover have "collision_tasks ex_completed = 0"
    by (simp add: collision_tasks_def ex_completed_def ex_inflight_def ex_built_def ex_defs)
  moreover have "collision_tasks (updateLabels ex_externals ex_completed) = 1"
    by (simp add: updateLabels_def label_tiles_def array_sort_def collision_tasks_def
          emit_def Let_def ex_completed_def ex_inflight_def ex_built_def ex_defs)
  ultimately show ?thesis by (intro conjI)
qed

text \<open>
  C8, amended. Let \<open>updateLabels\<close> run on \<open>s\<close>, and let it run again on a state \<open>s'\<close> with
  the same fingerprint (zoom bucket, ordered keys of the valid built renderable tiles,
  mesh timestamps) and the same \<open>scene.building\<close>, whose collision record is the one the
  first call left, with the in-flight marker either untouched or cleared by the
  completion of the task. Then both calls together schedule at most one task. The
  second call changes nothing, so it schedules no task, when the first call scheduled
  one, when the first call found the fingerprint stored, and when the marker is
  untouched.
\<close>

theorem collision_memoized:
  assumes fp: "fingerprint X s' = fingerprint X s"
    and col: "collision s' = collision (updateLabels X s) \<or>
              collision s' = (collision (updateLabels X s))\<lparr>task := None\<rparr>"
    and bld: "building (scene s') = building (scene s)"
  shows "collision_tasks (updateLabels X s) + collision_tasks (updateLabels X s')
           \<le> collision_tasks s + collision_tasks s' + 1 \<and>
         (collision_tasks (updateLabels X s) = collision_tasks s + 1 \<or>
          fingerprint_stored X s s \<or> collision s' = collision (updateLabels X s)
            \<longrightarrow> updateLabels X s' = s')"
proof -
  have stored: "fingerprint_stored X s' s' \<longleftrightarrow> fingerprint_stored X (updateLabels X s) s"
    using fp col by (auto simp add: fingerprint_stored_def)
  show ?thesis
  proof (cases "building (scene s) = Some False \<or> label_tiles s = [] \<or>
                fingerprint_stored X s s \<or> task (collision s) \<noteq> None")
    case True
    then have same: "updateLabels X s = s" by (simp add: updateLabels_alt)
    have "collision_tasks (updateLabels X s') \<le> collision_tasks s' + 1"
      by (rule collision_tasks_updateLabels)
    with same have total: "collision_tasks (updateLabels X s) + collision_tasks (updateLabels X s')
           \<le> collision_tasks s + collision_tasks s' + 1"
      by simp
    have "updateLabels X s' = s'"
      if "fingerprint_stored X s s \<or> collision s' = collision (updateLabels X s)"
    proof -
      from that True same stored col bld label_tiles_empty_iff [OF fp]
      have "building (scene s') = Some False \<or> label_tiles s' = [] \<or>
            fingerprint_stored X s' s' \<or> task (collision s') \<noteq> None"
        by auto
      then show ?thesis by (simp add: updateLabels_alt)
    qed
    with same total show ?thesis by auto
  next
    case False
    then have sched: "updateLabels X s = emit (TaskAdd (label_tiles s))
             (s\<lparr>collision := (collision s)
                  \<lparr>collision_zoom := Some (fst (fingerprint X s)),
                   tile_keys := Some (fst (snd (fingerprint X s))),
                   mesh_set := Some (snd (snd (fingerprint X s))),
                   task := Some (label_tiles s)\<rparr>\<rparr>)"
      by (simp add: updateLabels_alt)
    then have "fingerprint_stored X (updateLabels X s) s"
      by (simp add: fingerprint_stored_def)
    with stored have "fingerprint_stored X s' s'" by simp
    then have second: "updateLabels X s' = s'" by (simp add: updateLabels_alt)
    from sched have "collision_tasks (updateLabels X s) = collision_tasks s + 1"
      by (simp add: collision_tasks_def)
    with second show ?thesis by simp
  qed
qed

theorem collision_memoized_witness:
  "collision_tasks ex_built = 0 \<and>
   collision_tasks (updateLabels ex_externals ex_built) = 1 \<and>
   updateLabels ex_externals
     ((updateLabels ex_externals ex_built)
        \<lparr>collision := (collision (updateLabels ex_externals ex_built))\<lparr>task := None\<rparr>\<rparr>)
     = (updateLabels ex_externals ex_built)
         \<lparr>collision := (collision (updateLabels ex_externals ex_built))\<lparr>task := None\<rparr>\<rparr>"
proof -
  let ?s1 = "updateLabels ex_externals ex_built"
  let ?s' = "?s1\<lparr>collision := (collision ?s1)\<lparr>task := None\<rparr>\<rparr>"
  have fp: "fingerprint ex_externals ?s' = fingerprint ex_externals ex_built"
    by (simp add: fingerprint_updateLabels)
  have col: "collision ?s' = collision ?s1 \<or> collision ?s' = (collision ?s1)\<lparr>task := None\<rparr>"
    by simp
  have bld: "building (scene ?s') = building (scene ex_built)"
    by (simp add: updateLabels_alt)
  have zero: "collision_tasks ex_built = 0"
    by (simp add: collision_tasks_def ex_built_def ex_defs)
  have one: "collision_tasks ?s1 = 1"
    by (simp add: collision_tasks_def updateLabels_def label_tiles_def array_sort_def
          emit_def Let_def ex_built_def ex_defs)
  from collision_memoized [OF fp col bld] zero one have "updateLabels ex_externals ?s' = ?s'"
    by simp
  with zero one show ?thesis by (intro conjI)
qed

section \<open>Priority order of loading\<close>


























section \<open>Build results\<close>

text \<open>
  C1. A build result whose key is cached, whose generation is the scene's and whose
  id is smaller than the id of the cached tile is discarded: the handler returns the
  state it was called in, with the store, the cache and every tile unchanged, after
  the one call that aborts the build of the result.
\<close>

theorem superseded_result_discarded:
  assumes "map_of (tiles s) (key tile) = Some cached"
    and "generation tile = scene_generation (scene s)"
    and "tile_id tile < tile_id (heap s cached)"
  shows "buildTileStylesCompleted X tile progress s
           = Inr (s\<lparr>events := events s @ [AbortBuild tile]\<rparr>)"
  using assms by (simp add: buildTileStylesCompleted_def Tile_abortBuild_def emit_def)

theorem superseded_result_discarded_witness:
  "map_of (tiles ex_manager) (key ex_result) = Some 0 \<and>
   generation ex_result = scene_generation (scene ex_manager) \<and>
   tile_id ex_result < tile_id (heap ex_manager 0) \<and>
   buildTileStylesCompleted ex_externals ex_result ex_done ex_manager
     = Inr (ex_manager\<lparr>events := [AbortBuild ex_result]\<rparr>)"
  using superseded_result_discarded [of ex_manager ex_result 0 ex_externals ex_done]
  by (simp add: ex_defs ex_result_def)

section \<open>What the per-frame reconciliation leaves unchanged\<close>

text \<open>
  \<open>updateTileStates\<close> writes \<open>visible\<close> and \<open>proxy_for\<close> on existing tiles, allocates new
  tiles, and evicts; it never throws on a well-formed cache, and leaves every other
  field of every existing tile object as it was.
\<close>

lemma same_content_refl [simp]: "same_content t t"
  by (simp add: same_content_def)

lemma same_content_trans:
  "same_content a b \<Longrightarrow> same_content b c \<Longrightarrow> same_content a c"
  by (cases a, cases b, cases c) (simp add: same_content_def)

lemma same_content_key: "same_content a b \<Longrightarrow> key b = key a"
  by (cases a, cases b) (simp add: same_content_def)

lemma same_content_visible [simp]: "same_content t (t\<lparr>visible := v\<rparr>)"
  by (cases t) (simp add: same_content_def)

lemma same_content_proxy_for [simp]: "same_content t (t\<lparr>proxy_for := p\<rparr>)"
  by (cases t) (simp add: same_content_def)

lemma touched_refl [simp]: "touched s s"
  by (simp add: touched_def)

lemma touched_trans: "touched a b \<Longrightarrow> touched b c \<Longrightarrow> touched a c"
  unfolding touched_def by (metis same_content_trans)

lemma steady_refl [simp]: "steady s s"
  by (simp add: steady_def)

lemma steady_trans: "steady a b \<Longrightarrow> steady b c \<Longrightarrow> steady a c"
  unfolding steady_def by (meson le_trans less_le_trans same_content_trans)

lemma touched_steady: "touched s s' \<Longrightarrow> steady s s'"
  by (simp add: touched_def steady_def)

lemma touched_wf:
  assumes "touched s s'" and "cache_wf s"
  shows "cache_wf s'"
proof -
  from assms(1) have "key (heap s' r) = key (heap s r)" for r
    by (simp add: touched_def same_content_key)
  with assms show ?thesis
    by (simp add: touched_def cache_wf_def)
qed

lemma touched_fold:
  assumes "\<And>x s. touched s (f x s)"
  shows "touched s (fold f xs s)"
proof (induction xs arbitrary: s)
  case Nil
  show ?case by simp
next
  case (Cons x xs)
  have "touched s (f x s)" by (rule assms)
  moreover have "touched (f x s) (fold f xs (f x s))" by (rule Cons.IH)
  ultimately show ?case by (simp add: touched_trans)
qed

lemma updateVisibility_touched: "touched s (updateVisibility X r s)"
  by (simp add: touched_def updateVisibility_def Let_def)

lemma setProxyFor_touched: "touched s (setProxyFor r t s)"
  by (simp add: touched_def setProxyFor_def)

lemma forEachTile_touched:
  assumes "\<And>x s. touched s (f x s)"
  shows "touched s (forEachTile f s)"
  unfolding forEachTile_def using assms by (rule touched_fold)


lemma proxy_step_touched: "touched (fst sp) (fst (proxy_step X tile sp))"
proof -
  have "touched s (fold (\<lambda>d. setProxyFor d t) ds s)" for s t ds
    by (rule touched_fold) (rule setProxyFor_touched)
  then show ?thesis
    by (simp add: proxy_step_def Let_def setProxyFor_touched split: option.splits)
qed

lemma proxy_fold_touched: "touched (fst sp) (fst (fold (proxy_step X) ts sp))"
proof (induction ts arbitrary: sp)
  case Nil
  show ?case by simp
next
  case (Cons t ts)
  have "touched (fst sp) (fst (proxy_step X t sp))" by (rule proxy_step_touched)
  moreover have "touched (fst (proxy_step X t sp)) (fst (fold (proxy_step X) ts (proxy_step X t sp)))"
    by (rule Cons.IH)
  ultimately show ?case by (simp add: touched_trans)
qed

lemma touched_view: "touched s (s\<lparr>view := v\<rparr>)"
  by (simp add: touched_def)

lemma updateProxyTiles_touched: "touched s (updateProxyTiles X s)"
proof (cases "zoom_direction (view s) = 0")
  case True
  then show ?thesis by (simp add: updateProxyTiles_def)
next
  case False
  let ?s1 = "forEachTile (\<lambda>tile. setProxyFor tile None) s"
  let ?sp = "fold (proxy_step X) (map snd (tiles ?s1)) (?s1, False)"
  have 1: "touched s ?s1"
    by (rule forEachTile_touched) (rule setProxyFor_touched)
  have "touched (fst (?s1, False)) (fst ?sp)" by (rule proxy_fold_touched)
  then have 2: "touched ?s1 (fst ?sp)" by simp
  from 1 2 have 3: "touched s (fst ?sp)" by (rule touched_trans)
  have "touched (fst ?sp) ((fst ?sp)\<lparr>view := (view (fst ?sp))\<lparr>zoom_direction := 0\<rparr>\<rparr>)"
    by (rule touched_view)
  with 3 have 4: "touched s ((fst ?sp)\<lparr>view := (view (fst ?sp))\<lparr>zoom_direction := 0\<rparr>\<rparr>)"
    by (rule touched_trans)
  from False 3 4 show ?thesis
    by (simp add: updateProxyTiles_def Let_def)
qed


lemma cache_wf_alt:
  "cache_wf s \<longleftrightarrow>
     distinct (map fst (tiles s)) \<and>
     (\<forall>k t. map_of (tiles s) k = Some t \<longrightarrow> key (heap s t) = k \<and> t < next_ref s)"
  by (auto simp add: cache_wf_def list_all_iff dest!: map_of_SomeD)

lemma steady_fold:
  assumes "\<And>x s. steady s (f x s)"
  shows "steady s (fold f xs s)"
proof (induction xs arbitrary: s)
  case Nil
  show ?case by simp
next
  case (Cons x xs)
  have "steady s (f x s)" by (rule assms)
  moreover have "steady (f x s) (fold f xs (f x s))" by (rule Cons.IH)
  ultimately show ?case by (simp add: steady_trans)
qed

lemma wf_fold:
  assumes "\<And>x s. cache_wf s \<Longrightarrow> cache_wf (f x s)" and "cache_wf s"
  shows "cache_wf (fold f xs s)"
  using assms(2) by (induction xs arbitrary: s) (simp_all add: assms(1))

lemma loadSource_new:
  assumes "builds_geometry_tiles src" and "includesTile X src c (tile_zoom (view s))"
    and "normalizedKey X c src (tile_zoom (view s)) = Some k" and "k \<noteq> []"
    and "\<not> hasTile k s"
  shows "\<exists>t. key t = key (newTile X (next_ref s) src c (getWorkerForTile c src s) (baseZoom X (z c))) \<and>
             heap (loadSource X c src s) = (heap s)(next_ref s := t) \<and>
             next_ref (loadSource X c src s) = Suc (next_ref s) \<and>
             tiles (loadSource X c src s) = AList.update (key t) (next_ref s) (tiles s)"
  using assms
  by (intro exI [where x = "heap (loadSource X c src s) (next_ref s)"])
     (simp add: loadSource_def buildTile_def tile_build_def updateVisibility_def
        tileBuildStart_def keepTile_def pyramid_addTile_def Let_def)

lemma loadSource_cases:
  "loadSource X c src s = s \<or>
   (\<exists>t. heap (loadSource X c src s) = (heap s)(next_ref s := t) \<and>
        next_ref (loadSource X c src s) = Suc (next_ref s) \<and>
        tiles (loadSource X c src s) = AList.update (key t) (next_ref s) (tiles s))"
proof (cases "builds_geometry_tiles src \<and> includesTile X src c (tile_zoom (view s))")
  case False
  then show ?thesis by (auto simp add: loadSource_def)
next
  case True
  show ?thesis
  proof (cases "normalizedKey X c src (tile_zoom (view s))")
    case None
    with True show ?thesis by (simp add: loadSource_def)
  next
    case (Some k)
    show ?thesis
    proof (cases "k = [] \<or> hasTile k s")
      case True
      with Some show ?thesis by (auto simp add: loadSource_def)
    next
      case False
      with True Some loadSource_new [of src X c s k] show ?thesis by blast
    qed
  qed
qed

lemma loadSource_steady: "steady s (loadSource X c src s)"
  using loadSource_cases [of X c src s]
  by (auto simp add: steady_def)

lemma loadSource_wf:
  assumes "cache_wf s"
  shows "cache_wf (loadSource X c src s)"
proof -
  from loadSource_cases [of X c src s] show ?thesis
  proof
    assume "loadSource X c src s = s"
    with assms show ?thesis by simp
  next
    assume "\<exists>t. heap (loadSource X c src s) = (heap s)(next_ref s := t) \<and>
        next_ref (loadSource X c src s) = Suc (next_ref s) \<and>
        tiles (loadSource X c src s) = AList.update (key t) (next_ref s) (tiles s)"
    then obtain t where h: "heap (loadSource X c src s) = (heap s)(next_ref s := t)"
      and n: "next_ref (loadSource X c src s) = Suc (next_ref s)"
      and ts: "tiles (loadSource X c src s) = AList.update (key t) (next_ref s) (tiles s)"
      by blast
    from assms have d: "distinct (map fst (tiles s))"
      and old: "\<And>k r. map_of (tiles s) k = Some r \<Longrightarrow> key (heap s r) = k \<and> r < next_ref s"
      by (simp_all add: cache_wf_alt)
    from d have "distinct (map fst (AList.update (key t) (next_ref s) (tiles s)))"
      by (rule AList.distinct_update)
    moreover have "key (((heap s)(next_ref s := t)) r) = k \<and> r < Suc (next_ref s)"
      if "map_of (AList.update (key t) (next_ref s) (tiles s)) k = Some r" for k r
    proof (cases "k = key t")
      case True
      with that have "r = next_ref s" by (simp add: AList.update_conv')
      with True show ?thesis by simp
    next
      case False
      with that have "map_of (tiles s) k = Some r" by (simp add: AList.update_conv')
      then have "key (heap s r) = k \<and> r < next_ref s" by (rule old)
      then show ?thesis by auto
    qed
    ultimately show ?thesis
      unfolding cache_wf_alt h n ts by blast
  qed
qed

lemma loadCoordinate_steady: "steady s (loadCoordinate X c s)"
proof -
  have "steady s (fold (loadSource X c) srcs s)" for srcs
    by (rule steady_fold) (rule loadSource_steady)
  then show ?thesis by (simp add: loadCoordinate_def)
qed

lemma loadCoordinate_wf: "cache_wf s \<Longrightarrow> cache_wf (loadCoordinate X c s)"
proof -
  assume "cache_wf s"
  then have "cache_wf (fold (loadSource X c) srcs s)" for srcs
    by (rule wf_fold [rotated]) (rule loadSource_wf)
  with \<open>cache_wf s\<close> show ?thesis by (simp add: loadCoordinate_def)
qed

lemma steady_queued: "steady s (s\<lparr>queued_coords := q\<rparr>)"
  by (simp add: steady_def)

lemma cache_wf_queued [simp]: "cache_wf (s\<lparr>queued_coords := q\<rparr>) = cache_wf s"
  by (simp add: cache_wf_def)

lemma loadQueuedCoordinates_steady: "steady s (loadQueuedCoordinates X s)"
proof (cases "queued_coords s = []")
  case True
  then show ?thesis by (simp add: loadQueuedCoordinates_def)
next
  case False
  let ?d = "dispatch_order X s"
  let ?s1 = "s\<lparr>queued_coords := ?d\<rparr>"
  let ?s2 = "fold (loadCoordinate X) ?d ?s1"
  have "steady s ?s1" by (rule steady_queued)
  moreover have "steady ?s1 ?s2" by (rule steady_fold) (rule loadCoordinate_steady)
  moreover have "steady ?s2 (?s2\<lparr>queued_coords := []\<rparr>)" by (rule steady_queued)
  ultimately have "steady s (?s2\<lparr>queued_coords := []\<rparr>)"
    by (blast intro: steady_trans)
  with False show ?thesis by (simp add: loadQueuedCoordinates_def Let_def)
qed

lemma loadQueuedCoordinates_wf:
  assumes "cache_wf s"
  shows "cache_wf (loadQueuedCoordinates X s)"
proof (cases "queued_coords s = []")
  case True
  with assms show ?thesis by (simp add: loadQueuedCoordinates_def)
next
  case False
  let ?d = "dispatch_order X s"
  from assms have "cache_wf (s\<lparr>queued_coords := ?d\<rparr>)" by simp
  then have "cache_wf (fold (loadCoordinate X) ?d (s\<lparr>queued_coords := ?d\<rparr>))"
    by (rule wf_fold [rotated]) (rule loadCoordinate_wf)
  with False show ?thesis by (simp add: loadQueuedCoordinates_def Let_def)
qed


lemma forgetTile_fields [simp]:
  "heap (forgetTile k s) = heap s" "next_ref (forgetTile k s) = next_ref s"
  "tiles (forgetTile k s) = AList.delete k (tiles s)"
  by (simp_all add: forgetTile_def pyramid_removeTile_def Let_def split: option.splits)

lemma cache_wf_delete:
  assumes "cache_wf s" and "heap s' = heap s" and "next_ref s' = next_ref s"
    and "tiles s' = AList.delete k (tiles s)"
  shows "cache_wf s'"
proof -
  from assms(1) have "distinct (map fst (AList.delete k (tiles s)))"
    by (simp add: cache_wf_def AList.distinct_delete)
  moreover have "set (AList.delete k (tiles s)) \<subseteq> set (tiles s)"
    by (auto simp add: AList.delete_eq)
  ultimately show ?thesis
    using assms by (auto simp add: cache_wf_def list_all_iff)
qed

lemma removeTile_ok:
  assumes "cache_wf s" and "k \<in> fst ` set (tiles s)"
  shows "\<exists>s'. removeTile k s = Inr s' \<and> heap s' = heap s \<and> next_ref s' = next_ref s \<and>
              tiles s' = AList.delete k (tiles s) \<and> cache_wf s'"
proof -
  from assms(2) obtain tile where cached: "map_of (tiles s) k = Some tile"
    by (metis map_of_eq_None_iff not_Some_eq)
  let ?s' = "emit RequestRedraw (forgetTile k (emit (Destroy tile) s))"
  have eq: "removeTile k s = Inr ?s'"
    using assms(1) cached by (rule removeTile_eq)
  have f: "heap ?s' = heap s" "next_ref ?s' = next_ref s" "tiles ?s' = AList.delete k (tiles s)"
    by simp_all
  with assms(1) have "cache_wf ?s'" by (rule cache_wf_delete)
  with eq f show ?thesis by blast
qed

lemma fold_removeTile_ok:
  assumes "cache_wf s" and "distinct ks" and "set ks \<subseteq> fst ` set (tiles s)"
  shows "\<exists>s'. fold (\<lambda>k acc. case acc of Inl e \<Rightarrow> Inl e | Inr s' \<Rightarrow> removeTile k s') ks (Inr s)
                 = Inr s' \<and>
              heap s' = heap s \<and> next_ref s' = next_ref s \<and> cache_wf s'"
  using assms
proof (induction ks arbitrary: s)
  case Nil
  then show ?case by simp
next
  case (Cons k ks)
  from Cons.prems have "k \<in> fst ` set (tiles s)" by simp
  with Cons.prems(1) obtain s1 where s1: "removeTile k s = Inr s1" "heap s1 = heap s"
    "next_ref s1 = next_ref s" "tiles s1 = AList.delete k (tiles s)" "cache_wf s1"
    using removeTile_ok by blast
  have "fst ` set (AList.delete k (tiles s)) = fst ` set (tiles s) - {k}"
    by (metis AList.delete_keys set_map set_removeAll)
  with Cons.prems s1 have "set ks \<subseteq> fst ` set (tiles s1)" by auto
  with Cons.IH [of s1] s1 Cons.prems(2) show ?case by simp
qed

lemma removeTiles_ok:
  assumes "cache_wf s"
  shows "\<exists>s'. removeTiles flt s = Inr s' \<and> heap s' = heap s \<and> next_ref s' = next_ref s \<and>
              cache_wf s'"
proof -
  let ?ks = "map fst (filter (\<lambda>(t, tile). flt (heap s tile)) (tiles s))"
  from assms have "distinct ?ks"
    by (simp add: cache_wf_def distinct_map_filter)
  moreover have "set ?ks \<subseteq> fst ` set (tiles s)" by auto
  ultimately show ?thesis
    unfolding removeTiles_def Let_def using assms by (intro fold_removeTile_ok)
qed

lemma tail_fields [simp]:
  "heap (updateRenderableTiles s) = heap s" "next_ref (updateRenderableTiles s) = next_ref s"
  "tiles (updateRenderableTiles s) = tiles s"
  "heap (updateActiveStyles s) = heap s" "next_ref (updateActiveStyles s) = next_ref s"
  "tiles (updateActiveStyles s) = tiles s"
  "heap (updateLabels X s) = heap s" "next_ref (updateLabels X s) = next_ref s"
  "tiles (updateLabels X s) = tiles s"
  by (simp_all add: updateRenderableTiles_def updateActiveStyles_def updateLabels_def Let_def)

lemma steady_same_heap:
  "heap s' = heap s \<Longrightarrow> next_ref s' = next_ref s \<Longrightarrow> steady s s'"
  by (simp add: steady_def)

lemma cache_wf_same:
  "heap s' = heap s \<Longrightarrow> next_ref s' = next_ref s \<Longrightarrow> tiles s' = tiles s \<Longrightarrow>
   cache_wf s' = cache_wf s"
  by (simp add: cache_wf_def)

lemma updateTileStates_ok:
  assumes "cache_wf s"
  shows "\<exists>s'. updateTileStates X s = Inr s' \<and> steady s s' \<and> cache_wf s'"
proof -
  let ?s1 = "forEachTile (updateVisibility X) s"
  let ?s2 = "loadQueuedCoordinates X ?s1"
  let ?s3 = "updateProxyTiles X ?s2"
  have t1: "touched s ?s1"
    by (rule forEachTile_touched) (rule updateVisibility_touched)
  then have w1: "cache_wf ?s1" using assms by (rule touched_wf)
  then have w2: "cache_wf ?s2" by (rule loadQueuedCoordinates_wf)
  have t3: "touched ?s2 ?s3" by (rule updateProxyTiles_touched)
  then have w3: "cache_wf ?s3" using w2 by (rule touched_wf)
  have "steady s ?s1" using t1 by (rule touched_steady)
  moreover have "steady ?s1 ?s2" by (rule loadQueuedCoordinates_steady)
  moreover have "steady ?s2 ?s3" using t3 by (rule touched_steady)
  ultimately have st3: "steady s ?s3" by (blast intro: steady_trans)
  from w3 obtain s4 where s4: "pruneTilesForView X ?s3 = Inr s4" "heap s4 = heap ?s3"
    "next_ref s4 = next_ref ?s3" "cache_wf s4"
    unfolding pruneTilesForView_def using removeTiles_ok by blast
  let ?s' = "updateLabels X (updateActiveStyles (updateRenderableTiles s4))"
  from s4 have "steady ?s3 ?s'" by (intro steady_same_heap) simp_all
  with st3 have "steady s ?s'" by (rule steady_trans)
  moreover from s4 have "cache_wf ?s'" by (simp add: cache_wf_same [of ?s' s4])
  moreover from s4 have "updateTileStates X s = Inr ?s'"
    by (simp add: updateTileStates_def Let_def)
  ultimately show ?thesis by blast
qed


lemma kept_refl [simp]: "kept s s"
  by (simp add: kept_def)

lemma kept_trans: "kept a b \<Longrightarrow> kept b c \<Longrightarrow> kept a c"
  by (auto simp add: kept_def)

lemma kept_fold:
  assumes "\<And>x s. kept s (f x s)"
  shows "kept s (fold f xs s)"
proof (induction xs arbitrary: s)
  case Nil
  show ?case by simp
next
  case (Cons x xs)
  have "kept s (f x s)" by (rule assms)
  moreover have "kept (f x s) (fold f xs (f x s))" by (rule Cons.IH)
  ultimately show ?case by (simp add: kept_trans)
qed

lemma updateVisibility_reconciled:
  assumes "visible (heap s tile) = computed_visible X s (heap s tile)"
  shows "heap (updateVisibility X r s) tile = heap s tile \<and>
         view (updateVisibility X r s) = view s \<and>
         visible_coords (updateVisibility X r s) = visible_coords s"
proof (cases "r = tile")
  case True
  have "(heap s tile)\<lparr>visible := visible (heap s tile)\<rparr> = heap s tile" by simp
  with True assms show ?thesis
    by (simp add: updateVisibility_def computed_visible_def Let_def)
next
  case False
  then show ?thesis by (simp add: updateVisibility_def Let_def)
qed

lemma fold_updateVisibility_reconciled:
  assumes "visible (heap s tile) = computed_visible X s (heap s tile)"
  shows "heap (fold (updateVisibility X) rs s) tile = heap s tile \<and>
         view (fold (updateVisibility X) rs s) = view s \<and>
         visible_coords (fold (updateVisibility X) rs s) = visible_coords s"
  using assms
proof (induction rs arbitrary: s)
  case Nil
  show ?case by simp
next
  case (Cons r rs)
  let ?s1 = "updateVisibility X r s"
  from Cons.prems have 1: "heap ?s1 tile = heap s tile" "view ?s1 = view s"
    "visible_coords ?s1 = visible_coords s"
    using updateVisibility_reconciled by blast+
  with Cons.prems have "visible (heap ?s1 tile) = computed_visible X ?s1 (heap ?s1 tile)"
    by (simp add: computed_visible_def)
  then have "heap (fold (updateVisibility X) rs ?s1) tile = heap ?s1 tile \<and>
         view (fold (updateVisibility X) rs ?s1) = view ?s1 \<and>
         visible_coords (fold (updateVisibility X) rs ?s1) = visible_coords ?s1"
    by (rule Cons.IH)
  with 1 show ?case by simp
qed

lemma loadSource_kept: "kept s (loadSource X c src s)"
proof -
  have v: "view (loadSource X c src s) = view s"
    "visible_coords (loadSource X c src s) = visible_coords s"
    by (simp_all add: loadSource_def buildTile_def tile_build_def updateVisibility_def
        tileBuildStart_def keepTile_def pyramid_addTile_def Let_def split: option.splits)
  from loadSource_cases [of X c src s] v show ?thesis
    by (auto simp add: kept_def)
qed

lemma loadCoordinate_kept: "kept s (loadCoordinate X c s)"
proof -
  have "kept s (fold (loadSource X c) srcs s)" for srcs
    by (rule kept_fold) (rule loadSource_kept)
  then show ?thesis by (simp add: loadCoordinate_def)
qed

lemma kept_queued: "kept s (s\<lparr>queued_coords := q\<rparr>)"
  by (simp add: kept_def)

lemma loadQueuedCoordinates_kept: "kept s (loadQueuedCoordinates X s)"
proof (cases "queued_coords s = []")
  case True
  then show ?thesis by (simp add: loadQueuedCoordinates_def)
next
  case False
  let ?d = "dispatch_order X s"
  let ?s1 = "s\<lparr>queued_coords := ?d\<rparr>"
  let ?s2 = "fold (loadCoordinate X) ?d ?s1"
  have "kept s ?s1" by (rule kept_queued)
  moreover have "kept ?s1 ?s2" by (rule kept_fold) (rule loadCoordinate_kept)
  moreover have "kept ?s2 (?s2\<lparr>queued_coords := []\<rparr>)" by (rule kept_queued)
  ultimately have "kept s (?s2\<lparr>queued_coords := []\<rparr>)"
    by (blast intro: kept_trans)
  with False show ?thesis by (simp add: loadQueuedCoordinates_def Let_def)
qed

lemma forEachTile_fields [simp]:
  "next_ref (forEachTile (updateVisibility X) s) = next_ref s"
  using forEachTile_touched [of "updateVisibility X" s, OF updateVisibility_touched]
  by (simp add: touched_def)

lemma updateTileStates_reconciled:
  assumes wf: "cache_wf s" and r: "tile < next_ref s" and rec: "reconciled X s tile"
    and run: "updateTileStates X s = Inr s'"
  shows "heap s' tile = heap s tile"
proof -
  let ?s1 = "forEachTile (updateVisibility X) s"
  let ?s2 = "loadQueuedCoordinates X ?s1"
  let ?s3 = "updateProxyTiles X ?s2"
  from rec have 1: "heap ?s1 tile = heap s tile" "view ?s1 = view s"
    unfolding forEachTile_def reconciled_def
    using fold_updateVisibility_reconciled by blast+
  have k: "kept ?s1 ?s2" by (rule loadQueuedCoordinates_kept)
  with r have 2: "heap ?s2 tile = heap ?s1 tile" "view ?s2 = view ?s1"
    by (simp_all add: kept_def)
  from rec 1 2 have "zoom_direction (view ?s2) = 0" by (simp add: reconciled_def)
  then have 3: "?s3 = ?s2" by (simp add: updateProxyTiles_def)
  have t1: "touched s ?s1"
    by (rule forEachTile_touched) (rule updateVisibility_touched)
  then have "cache_wf ?s1" using wf by (rule touched_wf)
  then have "cache_wf ?s2" by (rule loadQueuedCoordinates_wf)
  with 3 have "cache_wf ?s3" by simp
  then obtain s4 where s4: "pruneTilesForView X ?s3 = Inr s4" "heap s4 = heap ?s3"
    unfolding pruneTilesForView_def using removeTiles_ok by blast
  with run have "s' = updateLabels X (updateActiveStyles (updateRenderableTiles s4))"
    by (simp add: updateTileStates_def Let_def)
  with s4 1 2 3 show ?thesis by simp
qed

lemma steadyD: "steady s s' \<Longrightarrow> r < next_ref s \<Longrightarrow> same_content (heap s r) (heap s' r)"
  by (simp add: steady_def)

lemma same_content_built: "same_content a b \<Longrightarrow> built b = built a"
  by (cases a, cases b) (simp add: same_content_def)

lemma stale_branch:
  assumes "map_of (tiles s) (key tile) = Some cached"
    and "generation tile \<noteq> scene_generation (scene s)"
  shows "buildTileStylesCompleted X tile progress s =
          (case updateTileStates X (Tile_abortBuild tile s) of
             Inl e \<Rightarrow> Inl e
           | Inr s1 \<Rightarrow>
               Inr (if progress_done progress then tileBuildStop (key tile) s1 else s1))"
  using assms by (simp add: buildTileStylesCompleted_def)


section \<open>Stale and finished build results\<close>

lemma wf_ex: "cache_wf ex_manager"
  by (simp add: cache_wf_def ex_defs)

lemma keep_ex: "tile_methods_keep_key ex_externals"
  by (simp add: tile_methods_keep_key_def ex_externals_def)

text \<open>
  The handler run on the example manager: a stale result leaves the cached tile unbuilt
  with its old meshes; a current result is merged and marks it built.
\<close>

lemma ex_stale_run:
  "(case buildTileStylesCompleted ex_externals ex_stale ex_done ex_manager of
      Inl e \<Rightarrow> False
    | Inr s' \<Rightarrow> \<not> built (heap s' 0) \<and> meshes (heap s' 0) = meshes ex_tile \<and>
               building_tiles s' = None \<and> tiles s' = [(''osm/5/3/10'', 0)])"
  by code_simp

lemma ex_fresh_run:
  "(case buildTileStylesCompleted ex_externals ex_fresh ex_done ex_manager of
      Inl e \<Rightarrow> False
    | Inr s' \<Rightarrow> built (heap s' 0) \<and> meshes (heap s' 0) = meshes ex_fresh \<and>
               building_tiles s' = None)"
  by code_simp

text \<open>
  C2, as stated, fails: in the branch of the stale generation the handler runs the
  per-frame reconciliation, which writes the \<open>visible\<close> flag of every cached tile. The
  cached tile of the example is in the visible coordinates with its flag still false;
  after the stale result has been handled the flag is true, so the cached tile was
  mutated.
\<close>

theorem stale_result_reconciles_cached_tile:
  "map_of (tiles ex_hidden) (key ex_stale) = Some 0 \<and>
   generation ex_stale \<noteq> scene_generation (scene ex_hidden) \<and>
   \<not> visible (heap ex_hidden 0) \<and>
   \<not> isl (buildTileStylesCompleted ex_externals ex_stale ex_done ex_hidden) \<and>
   visible (heap (projr (buildTileStylesCompleted ex_externals ex_stale ex_done ex_hidden)) 0)"
  by code_simp

text \<open>
  C2, amended. For a well-formed cache, a build result whose key is cached and whose
  generation differs from the scene's is discarded: the handler returns, no field of
  the result is merged into the tile object cached under the key, and that tile is
  not marked built. The handler only runs the per-frame reconciliation, which
  recomputes the \<open>visible\<close> flag and the proxy relation of every tile: every other field
  of the cached tile is what it was, and if the tile was reconciled with the view
  already, the whole tile object is what it was.
\<close>

theorem stale_generation_result_discarded:
  assumes wf: "cache_wf s"
    and cached: "map_of (tiles s) (key tile) = Some cached"
    and stale: "generation tile \<noteq> scene_generation (scene s)"
  shows "\<exists>s'. buildTileStylesCompleted X tile progress s = Inr s' \<and>
              heap s' cached = (heap s cached)\<lparr>visible := visible (heap s' cached),
                                               proxy_for := proxy_for (heap s' cached)\<rparr> \<and>
              built (heap s' cached) = built (heap s cached) \<and>
              (reconciled X s cached \<longrightarrow> heap s' cached = heap s cached)"
proof -
  let ?s0 = "Tile_abortBuild tile s"
  from wf have wf0: "cache_wf ?s0" by (simp add: Tile_abortBuild_def)
  then obtain s1 where s1: "updateTileStates X ?s0 = Inr s1" "steady ?s0 s1"
    using updateTileStates_ok by blast
  let ?s' = "if progress_done progress then tileBuildStop (key tile) s1 else s1"
  from wf cached have lt: "cached < next_ref ?s0"
    by (simp add: cache_wf_alt Tile_abortBuild_def)
  with s1(2) have "same_content (heap ?s0 cached) (heap s1 cached)"
    by (rule steadyD)
  then have sc: "same_content (heap s cached) (heap ?s' cached)"
    by (simp add: Tile_abortBuild_def)
  from cached stale s1(1) have "buildTileStylesCompleted X tile progress s = Inr ?s'"
    by (simp add: stale_branch)
  moreover from sc have "heap ?s' cached
      = (heap s cached)\<lparr>visible := visible (heap ?s' cached),
                         proxy_for := proxy_for (heap ?s' cached)\<rparr>"
    by (simp only: same_content_def)
  moreover from sc have "built (heap ?s' cached) = built (heap s cached)"
    by (rule same_content_built)
  moreover have "heap ?s' cached = heap s cached" if "reconciled X s cached"
  proof -
    from that have "reconciled X ?s0 cached"
      by (simp add: reconciled_def computed_visible_def Tile_abortBuild_def)
    with wf0 lt have "heap s1 cached = heap ?s0 cached"
      using s1(1) by (rule updateTileStates_reconciled)
    then show ?thesis by (simp add: Tile_abortBuild_def)
  qed
  ultimately show ?thesis by blast
qed

lemma ex_stale_cached: "map_of (tiles ex_manager) (key ex_stale) = Some 0"
  by (simp add: ex_stale_def ex_defs)

lemma ex_stale_generation: "generation ex_stale \<noteq> scene_generation (scene ex_manager)"
  by (simp add: ex_stale_def ex_defs)

lemma ex_reconciled: "reconciled ex_externals ex_manager 0"
  by (simp add: reconciled_def computed_visible_def ex_externals_def ex_defs)

theorem stale_generation_result_discarded_witness:
  "cache_wf ex_manager \<and> map_of (tiles ex_manager) (key ex_stale) = Some 0 \<and>
   generation ex_stale \<noteq> scene_generation (scene ex_manager) \<and>
   reconciled ex_externals ex_manager 0 \<and>
   built ex_stale \<and> \<not> built (heap ex_manager 0) \<and>
   (\<exists>s'. buildTileStylesCompleted ex_externals ex_stale ex_done ex_manager = Inr s' \<and>
         heap s' 0 = heap ex_manager 0 \<and> \<not> built (heap s' 0))"
proof -
  have unbuilt: "\<not> built (heap ex_manager 0)" and result: "built ex_stale"
    by (simp_all add: ex_stale_def ex_defs)
  from stale_generation_result_discarded [OF wf_ex ex_stale_cached ex_stale_generation]
  obtain s' where "buildTileStylesCompleted ex_externals ex_stale ex_done ex_manager = Inr s'"
    and "built (heap s' 0) = built (heap ex_manager 0)"
    and "reconciled ex_externals ex_manager 0 \<longrightarrow> heap s' 0 = heap ex_manager 0"
    by blast
  with unbuilt ex_reconciled
  have "\<exists>s'. buildTileStylesCompleted ex_externals ex_stale ex_done ex_manager = Inr s' \<and>
         heap s' 0 = heap ex_manager 0 \<and> \<not> built (heap s' 0)"
    by auto
  with wf_ex ex_stale_cached ex_stale_generation ex_reconciled unbuilt result show ?thesis
    by (intro conjI)
qed

text \<open>
  C3, as stated, fails in the branch of the superseded id: the handler returns before
  the final \<open>tileBuildStop\<close>, and for a result that reports done the build tracker still
  has the entry of the key.
\<close>

theorem superseded_result_keeps_tracker_entry:
  "progress_done ex_done \<and>
   map_of (tiles ex_manager) (key ex_result) = Some 0 \<and>
   generation ex_result = scene_generation (scene ex_manager) \<and>
   tile_id ex_result < tile_id (heap ex_manager 0) \<and>
   buildTileStylesCompleted ex_externals ex_result ex_done ex_manager
     = Inr (ex_manager\<lparr>events := [AbortBuild ex_result]\<rparr>) \<and>
   tracked (key ex_result) (ex_manager\<lparr>events := [AbortBuild ex_result]\<rparr>)"
  by (simp add: buildTileStylesCompleted_def Tile_abortBuild_def emit_def tracked_def
        ex_defs ex_result_def ex_done_def)

text \<open>
  C3, amended. For a well-formed cache and a build result whose progress reports
  done, the handler returns with no build-tracker entry for the key of the result in
  each of these branches: the key is no longer cached, the generation is stale, or
  the result is accepted (key cached, generation current, id not smaller than the id
  of the cached tile). The accepted branch reads the key from the merged tile, so it
  relies on \<open>merge\<close> and \<open>buildMeshes\<close> keeping the key.
\<close>

theorem done_result_clears_tracker:
  assumes wf: "cache_wf s"
    and keep: "tile_methods_keep_key X"
    and finished: "progress_done progress"
    and branch: "map_of (tiles s) (key tile) = None \<or>
                 (\<exists>cached. map_of (tiles s) (key tile) = Some cached \<and>
                    (generation tile \<noteq> scene_generation (scene s) \<or>
                     tile_id (heap s cached) \<le> tile_id tile))"
  shows "\<exists>s'. buildTileStylesCompleted X tile progress s = Inr s' \<and> \<not> tracked (key tile) s'"
proof -
  let ?s0 = "Tile_abortBuild tile s"
  from wf have "cache_wf ?s0" by (simp add: Tile_abortBuild_def)
  then obtain s1 where s1: "updateTileStates X ?s0 = Inr s1"
    using updateTileStates_ok by blast
  show ?thesis
  proof (cases "map_of (tiles s) (key tile)")
    case None
    with s1 finished
    have "buildTileStylesCompleted X tile progress s = Inr (tileBuildStop (key tile) s1)"
      by (simp add: buildTileStylesCompleted_def)
    then show ?thesis using tileBuildStop_untracked by blast
  next
    case (Some cached)
    show ?thesis
    proof (cases "generation tile \<noteq> scene_generation (scene s)")
      case True
      with Some s1 finished
      have "buildTileStylesCompleted X tile progress s = Inr (tileBuildStop (key tile) s1)"
        by (simp add: stale_branch)
      then show ?thesis using tileBuildStop_untracked by blast
    next
      case False
      with Some branch have newer: "\<not> tile_id tile < tile_id (heap s cached)" by auto
      let ?m = "buildMeshes X progress ((merge X (heap s cached) tile)\<lparr>built := True\<rparr>)"
      let ?s3 = "s\<lparr>heap := (heap s)(cached := ?m)\<rparr>"
      from wf Some have k: "key (heap s cached) = key tile" by (rule cache_wf_key)
      with keep have km: "key ?m = key tile"
        by (simp add: tile_methods_keep_key_def)
      from wf Some have lt: "cached < next_ref s" by (simp add: cache_wf_alt)
      have "cache_wf ?s3"
        unfolding cache_wf_alt
      proof (intro conjI allI impI)
        from wf show "distinct (map fst (tiles ?s3))" by (simp add: cache_wf_alt)
      next
        fix k' t assume "map_of (tiles ?s3) k' = Some t"
        then have old: "map_of (tiles s) k' = Some t" by simp
        with wf have "key (heap s t) = k'" "t < next_ref s" by (simp_all add: cache_wf_alt)
        moreover have "k' = key tile" if "t = cached"
        proof -
          from wf old have "key (heap s t) = k'" by (rule cache_wf_key)
          with that k show ?thesis by simp
        qed
        ultimately show "key (heap ?s3 t) = k'" by (auto simp add: km)
        from \<open>t < next_ref s\<close> show "t < next_ref ?s3" by simp
      qed
      then obtain s4 where s4: "updateTileStates X ?s3 = Inr s4" "steady ?s3 s4"
        using updateTileStates_ok by blast
      from lt have "cached < next_ref ?s3" by simp
      with s4(2) have "same_content (heap ?s3 cached) (heap s4 cached)"
        by (rule steadyD)
      then have "key (heap s4 cached) = key (heap ?s3 cached)"
        by (rule same_content_key)
      then have "key (heap s4 cached) = key ?m"
        by simp
      with km have k4: "key (heap (emit RequestRedraw s4) cached) = key tile" by simp
      from Some False newer finished s4(1)
      have "buildTileStylesCompleted X tile progress s
              = Inr (tileBuildStop (key (heap (emit RequestRedraw s4) cached))
                       (emit RequestRedraw s4))"
        by (simp add: buildTileStylesCompleted_def Let_def)
      with k4 have "buildTileStylesCompleted X tile progress s
              = Inr (tileBuildStop (key tile) (emit RequestRedraw s4))"
        by simp
      then show ?thesis using tileBuildStop_untracked by blast
    qed
  qed
qed

lemma ex_fresh_branch:
  "map_of (tiles ex_manager) (key ex_fresh) = None \<or>
   (\<exists>cached. map_of (tiles ex_manager) (key ex_fresh) = Some cached \<and>
      (generation ex_fresh \<noteq> scene_generation (scene ex_manager) \<or>
       tile_id (heap ex_manager cached) \<le> tile_id ex_fresh))"
  by (simp add: ex_fresh_def ex_defs)

lemma ex_stale_branch:
  "map_of (tiles ex_manager) (key ex_stale) = None \<or>
   (\<exists>cached. map_of (tiles ex_manager) (key ex_stale) = Some cached \<and>
      (generation ex_stale \<noteq> scene_generation (scene ex_manager) \<or>
       tile_id (heap ex_manager cached) \<le> tile_id ex_stale))"
  by (simp add: ex_stale_def ex_defs)

lemma ex_removed_branch:
  "map_of (tiles ex_manager) (key ex_removed) = None \<or>
   (\<exists>cached. map_of (tiles ex_manager) (key ex_removed) = Some cached \<and>
      (generation ex_removed \<noteq> scene_generation (scene ex_manager) \<or>
       tile_id (heap ex_manager cached) \<le> tile_id ex_removed))"
  by (simp add: ex_removed_def ex_defs)

lemma ex_done_done: "progress_done ex_done"
  by (simp add: ex_done_def)

theorem done_result_clears_tracker_witness:
  "tracked (key ex_fresh) ex_manager \<and>
   map_of (tiles ex_manager) (key ex_removed) = None \<and>
   (\<exists>s'. buildTileStylesCompleted ex_externals ex_fresh ex_done ex_manager = Inr s' \<and>
         \<not> tracked (key ex_fresh) s') \<and>
   (\<exists>s'. buildTileStylesCompleted ex_externals ex_stale ex_done ex_manager = Inr s' \<and>
         \<not> tracked (key ex_stale) s') \<and>
   (\<exists>s'. buildTileStylesCompleted ex_externals ex_removed ex_done ex_manager = Inr s' \<and>
         \<not> tracked (key ex_removed) s')"
proof -
  have "tracked (key ex_fresh) ex_manager"
    by (simp add: tracked_def ex_fresh_def ex_defs)
  moreover have "map_of (tiles ex_manager) (key ex_removed) = None"
    by (simp add: ex_removed_def ex_defs)
  moreover note done_result_clears_tracker [OF wf_ex keep_ex ex_done_done ex_fresh_branch]
    done_result_clears_tracker [OF wf_ex keep_ex ex_done_done ex_stale_branch]
    done_result_clears_tracker [OF wf_ex keep_ex ex_done_done ex_removed_branch]
  ultimately show ?thesis by (intro conjI)
qed

end
